theory Spec2Isabelle
  imports Complex_Main
begin

section \<open>JavaScript values\<close>

text \<open>
  The values the scripts handle are the values of parsed JSON bodies. A number is
  modelled by an integer (the numeric fields of the backend are identifiers and counts),
  of a magnitude below \<open>10^21\<close>, where its string form is its decimal form; a string
  by a \<^typ>\<open>string\<close> whose characters stand for the code units of the script's
  string. An object is the list of its own properties in creation order, with distinct
  keys. \<open>undefined\<close>, the value of a missing property, is \<open>None\<close> of
  \<open>json option\<close>.

  The user-facing messages of the scripts are Vietnamese; the model writes each of them
  without its diacritics, so that the text stays in ASCII.
\<close>

datatype json =
    JNull
  | JBool bool
  | JNum int
  | JStr string
  | JArr "json list"
  | JObj "(string \<times> json) list"

datatype exn = Error string | TypeError string

text \<open>The text of the TypeError that a property read on \<open>null\<close> throws.\<close>

definition msg_null_read :: string where
  "msg_null_read = ''Cannot read properties of null''"

text \<open>Truthiness, as \<open>if (v)\<close>, \<open>v && w\<close>, \<open>v || w\<close> and \<open>Boolean(v)\<close> test it.\<close>

fun truthy :: "json \<Rightarrow> bool" where
  "truthy JNull = False"
| "truthy (JBool b) = b"
| "truthy (JNum n) = (n \<noteq> 0)"
| "truthy (JStr s) = (s \<noteq> [])"
| "truthy (JArr xs) = True"
| "truthy (JObj kvs) = True"

text \<open>
  \<open>data.k\<close> for one of the property names the scripts write literally (\<open>message\<close>,
  \<open>error\<close>, \<open>errors\<close>, \<open>data\<close>, \<open>access_token\<close>, ...): an own property of an
  object, \<open>undefined\<close> on any other value, and a TypeError on \<open>null\<close>.
\<close>

fun get_prop :: "json \<Rightarrow> string \<Rightarrow> exn + json option" where
  "get_prop JNull k = Inl (TypeError msg_null_read)"
| "get_prop (JObj kvs) k = Inr (map_of kvs k)"
| "get_prop v k = Inr None"

text \<open>
  \<open>data && data.k\<close> in a condition: \<open>Some v\<close> when the conjunction is truthy, with
  \<open>v\<close> the value of \<open>data.k\<close>. A falsy \<open>data\<close> (among them \<open>null\<close>) stops the
  conjunction before the property is read.
\<close>

definition guarded :: "json \<Rightarrow> string \<Rightarrow> json option" where
  "guarded data k =
     (if truthy data then
        (case get_prop data k of
           Inr (Some v) \<Rightarrow> if truthy v then Some v else None
         | _ \<Rightarrow> None)
      else None)"

subsection \<open>Conversion to strings\<close>

fun dec_digits :: "nat \<Rightarrow> string" where
  "dec_digits n =
     (if n < 10 then [''0123456789'' ! n]
      else dec_digits (n div 10) @ [''0123456789'' ! (n mod 10)])"

declare dec_digits.simps [simp del]

definition show_int :: "int \<Rightarrow> string" where
  "show_int i = (if i < 0 then ''-'' @ dec_digits (nat (- i)) else dec_digits (nat i))"

fun join :: "string \<Rightarrow> string list \<Rightarrow> string" where
  "join sep [] = []"
| "join sep [x] = x"
| "join sep (x # y # ys) = x @ sep @ join sep (y # ys)"

text \<open>
  \<open>String(v)\<close>: an array is its elements joined by commas, where \<open>null\<close> gives the
  empty string; an object is \<open>[object Object]\<close>, as long as it has no property of
  its own named \<open>toString\<close> or \<open>valueOf\<close>.
\<close>

fun js_to_string :: "json \<Rightarrow> string" where
  "js_to_string JNull = ''null''"
| "js_to_string (JBool b) = (if b then ''true'' else ''false'')"
| "js_to_string (JNum n) = show_int n"
| "js_to_string (JStr s) = s"
| "js_to_string (JArr xs) =
     join '','' (map (\<lambda>x. if x = JNull then [] else js_to_string x) xs)"
| "js_to_string (JObj kvs) = ''[object Object]''"

text \<open>
  The values whose conversion to a string is the one above: an object with a property of
  its own named \<open>toString\<close> is not among them, alone or inside an array, since the
  conversion would call that property and throws.
\<close>

fun stringable :: "json \<Rightarrow> bool" where
  "stringable (JArr xs) = list_all stringable xs"
| "stringable (JObj kvs) = (''toString'' \<notin> set (map fst kvs))"
| "stringable v = True"

text \<open>\<open>Array.prototype.join\<close>: \<open>null\<close> elements give the empty string.\<close>

definition array_join :: "string \<Rightarrow> json list \<Rightarrow> string" where
  "array_join sep xs = join sep (map (\<lambda>x. if x = JNull then [] else js_to_string x) xs)"

text \<open>\<open>s.indexOf(t) !== -1\<close> on strings: \<open>t\<close> occurs in \<open>s\<close>.\<close>

fun is_prefix :: "string \<Rightarrow> string \<Rightarrow> bool" where
  "is_prefix [] s = True"
| "is_prefix (c # t) [] = False"
| "is_prefix (c # t) (d # s) = (c = d \<and> is_prefix t s)"

fun contains :: "string \<Rightarrow> string \<Rightarrow> bool" where
  "contains [] t = (t = [])"
| "contains (c # s) t = (is_prefix t (c # s) \<or> contains s t)"

text \<open>
  \<open>v.indexOf(t) !== -1\<close> on a value: substring search on a string, search for an
  element strictly equal to the string \<open>t\<close> on an array, and a TypeError on a value
  that has no \<open>indexOf\<close> method.
\<close>

definition msg_not_a_function :: string where
  "msg_not_a_function = ''indexOf is not a function''"

fun index_of_found :: "json \<Rightarrow> string \<Rightarrow> exn + bool" where
  "index_of_found (JStr s) t = Inr (contains s t)"
| "index_of_found (JArr xs) t = Inr (JStr t \<in> set xs)"
| "index_of_found v t = Inl (TypeError msg_not_a_function)"

subsection \<open>Object.values and Array.prototype.flat\<close>

text \<open>
  \<open>Object.values\<close> lists the values of the array-index keys first, in ascending
  numeric order, then those of the other keys in creation order. An array index is the
  canonical decimal form of a number below \<open>2^32 - 1\<close>.
\<close>

definition is_digit :: "char \<Rightarrow> bool" where
  "is_digit c = (c \<in> set ''0123456789'')"

definition digit_val :: "char \<Rightarrow> int" where
  "digit_val c = of_char c - 48"

definition int_of_digits :: "string \<Rightarrow> int" where
  "int_of_digits s = foldl (\<lambda>a c. 10 * a + digit_val c) 0 s"

definition is_index_key :: "string \<Rightarrow> bool" where
  "is_index_key k =
     (k \<noteq> [] \<and> list_all is_digit k \<and> (k = ''0'' \<or> hd k \<noteq> CHR ''0'')
      \<and> length k \<le> 10 \<and> int_of_digits k < 4294967295)"

definition own_entries :: "(string \<times> 'a) list \<Rightarrow> (string \<times> 'a) list" where
  "own_entries kvs =
     sort_key (\<lambda>kv. int_of_digits (fst kv)) (filter (\<lambda>kv. is_index_key (fst kv)) kvs)
     @ filter (\<lambda>kv. \<not> is_index_key (fst kv)) kvs"

definition object_values :: "(string \<times> json) list \<Rightarrow> json list" where
  "object_values kvs = map snd (own_entries kvs)"

definition flat :: "json list \<Rightarrow> json list" where
  "flat xs = concat (map (\<lambda>v. case v of JArr ys \<Rightarrow> ys | _ \<Rightarrow> [v]) xs)"

definition is_object_type :: "json \<Rightarrow> bool" where
  "is_object_type v = (case v of JNull \<Rightarrow> True | JArr xs \<Rightarrow> True | JObj kvs \<Rightarrow> True | _ \<Rightarrow> False)"

section \<open>HTTP client (api.js)\<close>

definition msg_invalid_data :: string where
  "msg_invalid_data = ''Du lieu khong hop le.''"

definition msg_login_again :: string where
  "msg_login_again = '' Vui long dang nhap lai.''"

definition msg_bad_credentials :: string where
  "msg_bad_credentials = ''Email hoac mat khau khong dung.''"

definition msg_email_taken :: string where
  "msg_email_taken = ''Email nay da duoc dang ky.''"

definition msg_feature_updating :: string where
  "msg_feature_updating = ''Chuc nang dang duoc cap nhat.''"

definition msg_server_error :: string where
  "msg_server_error = ''Loi may chu. Vui long thu lai sau.''"

definition msg_request_failed :: string where
  "msg_request_failed = ''Yeu cau that bai. Vui long thu lai.''"

definition msg_unreachable :: "string \<Rightarrow> string" where
  "msg_unreachable api_base =
     ''Khong the ket noi may chu. Kiem tra backend da chay tai '' @ api_base @ '' chua.''"

text \<open>\<open>data.message || fallback\<close>, which reads the property without a guard.\<close>

definition message_or :: "json \<Rightarrow> string \<Rightarrow> exn + json" where
  "message_or data fallback =
     (case get_prop data ''message'' of
        Inl e \<Rightarrow> Inl e
      | Inr (Some v) \<Rightarrow> Inr (if truthy v then v else JStr fallback)
      | Inr None \<Rightarrow> Inr (JStr fallback))"

text \<open>The parts of a 422 body's \<open>errors\<close>, before they are filtered and joined.\<close>

definition error_parts :: "json \<Rightarrow> json list" where
  "error_parts err =
     (if is_object_type err then
        flat (case err of JArr xs \<Rightarrow> xs | JObj kvs \<Rightarrow> object_values kvs | _ \<Rightarrow> [])
      else [err])"

text \<open>
  \<open>parseErrorMessage(res, data)\<close>, with \<open>status\<close> for \<open>res.status\<close>. The result is
  the value the function returns, a string in every branch but the first two, which
  return the body's field as it is. \<open>status_message\<close> is the rest of the function,
  from the test for status 422 on.
\<close>

definition status_message :: "nat \<Rightarrow> json \<Rightarrow> exn + json" where
  "status_message status data =
     (if status = 422 \<and> guarded data ''errors'' \<noteq> None then
        (case guarded data ''errors'' of
           Some err \<Rightarrow>
             (let joined = array_join ''. '' (filter truthy (error_parts err))
              in Inr (JStr (if joined \<noteq> [] then joined else msg_invalid_data)))
         | None \<Rightarrow> Inr (JStr msg_invalid_data))
      else if status = 401 then
        (case guarded data ''message'' of
           Some m \<Rightarrow>
             (case index_of_found m ''token'' of
                Inl e \<Rightarrow> Inl e
              | Inr True \<Rightarrow> Inr (JStr (js_to_string m @ msg_login_again))
              | Inr False \<Rightarrow>
                  (case index_of_found m ''Authentication'' of
                     Inl e \<Rightarrow> Inl e
                   | Inr True \<Rightarrow> Inr (JStr (js_to_string m @ msg_login_again))
                   | Inr False \<Rightarrow> Inr (JStr msg_bad_credentials)))
         | None \<Rightarrow> Inr (JStr msg_bad_credentials))
      else if status = 409 then Inr (JStr msg_email_taken)
      else if status = 501 then message_or data msg_feature_updating
      else if status \<ge> 500 then message_or data msg_server_error
      else message_or data msg_request_failed)"

definition parseErrorMessage :: "nat \<Rightarrow> json \<Rightarrow> exn + json" where
  "parseErrorMessage status data =
     (case guarded data ''message'' of
        Some m \<Rightarrow> Inr m
      | None \<Rightarrow>
          (case guarded data ''error'' of
             Some e \<Rightarrow> Inr e
           | None \<Rightarrow> status_message status data))"

text \<open>
  What \<open>fetch\<close> gives back: a network-level failure, or a response with its status and
  its body as \<open>res.json()\<close> parses it (\<open>None\<close> when the body is not valid JSON).
\<close>

datatype fetch_result = NetworkFailure | Response nat "json option"

record request_opts =
  opt_method :: string
  opt_headers :: "(string \<times> string) list"
  opt_body :: "json option"

type_synonym storage = "string \<rightharpoonup> string"

definition KEY_TOKEN :: string where "KEY_TOKEN = ''aura_access_token''"
definition KEY_REFRESH_TOKEN :: string where "KEY_REFRESH_TOKEN = ''aura_refresh_token''"
definition KEY_USER :: string where "KEY_USER = ''aura_user''"
definition KEY_ROLE :: string where "KEY_ROLE = ''aura_role''"

definition getHeaders :: "storage \<Rightarrow> bool \<Rightarrow> (string \<times> string) list" where
  "getHeaders ls includeAuth =
     [(''Content-Type'', ''application/json'')]
     @ (if includeAuth then
          (case ls KEY_TOKEN of
             Some token \<Rightarrow> if token \<noteq> [] then [(''Authorization'', ''Bearer '' @ token)] else []
           | None \<Rightarrow> [])
        else [])"

definition res_ok :: "nat \<Rightarrow> bool" where
  "res_ok status = (200 \<le> status \<and> status \<le> 299)"

datatype 'a promise = Resolved 'a | Rejected exn

text \<open>
  \<open>request(method, path, body, useAuth)\<close>. \<open>fetch\<close> is the browser's function, from the
  URL and the options to what comes back; \<open>opt_body\<close> holds the value that the script
  serialises into the request body.
\<close>

definition request_options :: "storage \<Rightarrow> string \<Rightarrow> json \<Rightarrow> bool \<Rightarrow> request_opts" where
  "request_options ls method body useAuth =
     \<lparr> opt_method = method, opt_headers = getHeaders ls useAuth,
       opt_body = (if truthy body \<and> (method = ''POST'' \<or> method = ''PUT'' \<or> method = ''PATCH'')
                   then Some body else None) \<rparr>"

definition request ::
  "string \<Rightarrow> storage \<Rightarrow> (string \<Rightarrow> request_opts \<Rightarrow> fetch_result)
     \<Rightarrow> string \<Rightarrow> string \<Rightarrow> json \<Rightarrow> bool \<Rightarrow> json promise" where
  "request api_base ls fetch method path body useAuth =
     (case fetch (api_base @ path) (request_options ls method body useAuth) of
        NetworkFailure \<Rightarrow> Rejected (Error (msg_unreachable api_base))
      | Response status parsed \<Rightarrow>
          (let data = (case parsed of Some j \<Rightarrow> j | None \<Rightarrow> JObj [])
           in if \<not> res_ok status then
                (case parseErrorMessage status data of
                   Inl e \<Rightarrow> Rejected e
                 | Inr m \<Rightarrow> Rejected (Error (js_to_string m)))
              else Resolved data))"

section \<open>Session store (auth.js)\<close>

text \<open>
  The part of the browser the scripts read and write: the local storage, the origin and
  the path of the current page, and the URL assigned to \<open>window.location.href\<close>
  (\<open>None\<close> as long as no script has navigated).
\<close>

record browser =
  localStorage :: storage
  origin :: string
  pathname :: string
  href :: "string option"

definition getToken :: "browser \<Rightarrow> string option" where
  "getToken b = localStorage b KEY_TOKEN"

definition getRole :: "browser \<Rightarrow> string" where
  "getRole b = (case localStorage b KEY_ROLE of Some r \<Rightarrow> r | None \<Rightarrow> [])"

subsection \<open>JSON.stringify\<close>

definition hex_digit :: "nat \<Rightarrow> char" where
  "hex_digit n = ''0123456789abcdef'' ! n"

definition escape_char :: "char \<Rightarrow> string" where
  "escape_char c =
     (if c = CHR 0x22 then [CHR 0x5C, CHR 0x22]
      else if c = CHR 0x5C then [CHR 0x5C, CHR 0x5C]
      else if c = CHR 0x08 then [CHR 0x5C, CHR ''b'']
      else if c = CHR 0x0C then [CHR 0x5C, CHR ''f'']
      else if c = CHR 0x0A then [CHR 0x5C, CHR ''n'']
      else if c = CHR 0x0D then [CHR 0x5C, CHR ''r'']
      else if c = CHR 0x09 then [CHR 0x5C, CHR ''t'']
      else if (of_char c :: nat) < 32 then
        [CHR 0x5C, CHR ''u'', CHR ''0'', CHR ''0'',
         hex_digit (of_char c div 16), hex_digit (of_char c mod 16)]
      else [c])"

definition quote :: "string \<Rightarrow> string" where
  "quote s = [CHR 0x22] @ concat (map escape_char s) @ [CHR 0x22]"

fun stringify :: "json \<Rightarrow> string" where
  "stringify JNull = ''null''"
| "stringify (JBool b) = (if b then ''true'' else ''false'')"
| "stringify (JNum n) = show_int n"
| "stringify (JStr s) = quote s"
| "stringify (JArr xs) = ''['' @ join '','' (map stringify xs) @ '']''"
| "stringify (JObj kvs) =
     ''{'' @ join '','' (map (\<lambda>kv. quote (fst kv) @ '':'' @ snd kv)
                         (own_entries (map (\<lambda>kv. (fst kv, stringify (snd kv))) kvs))) @ ''}''"

subsection \<open>Storing and reading the session\<close>

text \<open>
  \<open>setAuth(token, user, role)\<close>: each value is stored when it is truthy,
  \<open>localStorage.setItem\<close> turning it into a string.
\<close>

definition setAuth :: "json \<Rightarrow> json \<Rightarrow> json \<Rightarrow> browser \<Rightarrow> browser" where
  "setAuth token user role b =
     (let ls1 = (if truthy token then (localStorage b)(KEY_TOKEN \<mapsto> js_to_string token)
                 else localStorage b);
          ls2 = (if truthy user then ls1(KEY_USER \<mapsto> stringify user) else ls1);
          ls3 = (if truthy role then ls2(KEY_ROLE \<mapsto> js_to_string role) else ls2)
      in b\<lparr>localStorage := ls3\<rparr>)"

definition clearAuth :: "browser \<Rightarrow> browser" where
  "clearAuth b =
     b\<lparr>localStorage :=
         (localStorage b)(KEY_TOKEN := None, KEY_REFRESH_TOKEN := None,
                          KEY_USER := None, KEY_ROLE := None)\<rparr>"

definition isLoggedIn :: "browser \<Rightarrow> bool" where
  "isLoggedIn b = (case getToken b of Some t \<Rightarrow> t \<noteq> [] | None \<Rightarrow> False)"

subsection \<open>Paths\<close>

fun split_on :: "char \<Rightarrow> string \<Rightarrow> string list" where
  "split_on c [] = [[]]"
| "split_on c (x # xs) =
     (if x = c then [] # split_on c xs
      else (case split_on c xs of
              p # ps \<Rightarrow> (x # p) # ps
            | [] \<Rightarrow> [[x]]))"





text \<open>
  \<open>s.replace(/\/[^/]*$/, '')\<close> cuts \<open>s\<close> at its last slash;
  \<open>s.replace(/\/[^/]+$/, '')\<close> does so when something follows that slash.
\<close>

definition cut_at_last_slash :: "string \<Rightarrow> string" where
  "cut_at_last_slash s =
     (if CHR ''/'' \<in> set s then rev (tl (dropWhile (\<lambda>c. c \<noteq> CHR ''/'') (rev s))) else s)"


definition dashboards :: "(string \<times> string) list" where
  "dashboards =
     [(''Patient'', ''patient/dashboard.html''), (''Doctor'', ''doctor/dashboard.html''),
      (''ClinicManager'', ''clinic/dashboard.html''), (''Admin'', ''admin/dashboard.html'')]"

text \<open>
  \<open>map[k]\<close> on an object literal whose values are strings, for any key. A key that
  the literal does not define reaches the members every object inherits from
  \<open>Object.prototype\<close>. Such a member is truthy, and the scripts only ever use its string
  form, in a concatenation or as a value to store; so the lookup gives that string: the
  text of a built-in function, and \<open>[object Object]\<close> for \<open>__proto__\<close>.
\<close>

definition object_prototype_keys :: "string list" where
  "object_prototype_keys =
     [''constructor'', ''hasOwnProperty'', ''isPrototypeOf'', ''propertyIsEnumerable'',
      ''toLocaleString'', ''toString'', ''valueOf'', ''__defineGetter__'', ''__defineSetter__'',
      ''__lookupGetter__'', ''__lookupSetter__'', ''__proto__'']"

definition inherited_text :: "string \<Rightarrow> string" where
  "inherited_text k =
     (if k = ''__proto__'' then ''[object Object]''
      else ''function '' @ (if k = ''constructor'' then ''Object'' else k) @ ''() { [native code] }'')"

definition table_lookup :: "(string \<times> string) list \<Rightarrow> string \<Rightarrow> string option" where
  "table_lookup tbl k =
     (case map_of tbl k of
        Some v \<Rightarrow> Some v
      | None \<Rightarrow> if k \<in> set object_prototype_keys then Some (inherited_text k) else None)"

text \<open>\<open>map[role] || 'index.html'\<close> on the table of dashboards.\<close>

definition dashboard_or_index :: "string \<Rightarrow> string" where
  "dashboard_or_index role =
     (case table_lookup dashboards role of Some p \<Rightarrow> p | None \<Rightarrow> ''index.html'')"


definition role_names :: "(string \<times> string) list" where
  "role_names = [(''1'', ''Admin''), (''2'', ''Doctor''), (''3'', ''Patient''), (''4'', ''ClinicManager'')]"

text \<open>
  \<open>getRoleNameByRoleId(roleId)\<close>: \<open>map[roleId] || ''\<close>. The property key of
  \<open>roleId\<close> is its string form, \<open>undefined\<close> for a missing one.
\<close>

definition property_key :: "json option \<Rightarrow> string" where
  "property_key v = (case v of None \<Rightarrow> ''undefined'' | Some j \<Rightarrow> js_to_string j)"

definition getRoleNameByRoleId :: "json option \<Rightarrow> string" where
  "getRoleNameByRoleId roleId =
     (case table_lookup role_names (property_key roleId) of Some name \<Rightarrow> name | None \<Rightarrow> [])"

text \<open>
  The object literal \<open>{account_id: .., email: .., role_id: .., clinic_id: ..}\<close> as
  \<open>JSON.stringify\<close> sees it: a property whose value is \<open>undefined\<close> is left out.
\<close>

definition user_of :: "(string \<times> json) list \<Rightarrow> json" where
  "user_of kvs =
     JObj (List.map_filter (\<lambda>k. map_option (Pair k) (map_of kvs k))
             [''account_id'', ''email'', ''role_id'', ''clinic_id''])"

definition payload_of :: "json \<Rightarrow> json" where
  "payload_of responseData =
     (case guarded responseData ''data'' of Some d \<Rightarrow> d | None \<Rightarrow> responseData)"

definition setAuthFromResponse :: "json \<Rightarrow> browser \<Rightarrow> bool \<times> browser" where
  "setAuthFromResponse responseData b =
     (let data = payload_of responseData
      in case guarded data ''access_token'' of
           None \<Rightarrow> (False, b)
         | Some token \<Rightarrow>
             (case data of
                JObj kvs \<Rightarrow>
                  (let user = user_of kvs;
                       roleName = getRoleNameByRoleId (map_of kvs ''role_id'')
                   in (True, setAuth token user (JStr roleName) b))
              | _ \<Rightarrow> (False, b)))"

definition redirectByRole :: "browser \<Rightarrow> browser" where
  "redirectByRole b =
     (let path = dashboard_or_index (getRole b);
          basePath = cut_at_last_slash (pathname b);
          fullPath = (if basePath \<noteq> [] then basePath @ ''/'' else ''/'') @ path
      in b\<lparr>href := Some (if origin b \<noteq> [] then origin b @ fullPath else fullPath)\<rparr>)"

section \<open>Paginated table (AuraTable.render)\<close>

subsection \<open>parseInt\<close>

definition is_space :: "char \<Rightarrow> bool" where
  "is_space c = ((of_char c :: nat) \<in> set [9, 10, 11, 12, 13, 32, 160])"

text \<open>
  \<open>parseInt(s, 10)\<close> on a string: leading white space is skipped, a sign is read, and
  the longest run of digits that follows is the number; without a digit the result is
  \<open>NaN\<close>, here \<open>None\<close>.
\<close>

definition parse_int :: "string \<Rightarrow> int option" where
  "parse_int s =
     (let t = dropWhile is_space s;
          neg = (t \<noteq> [] \<and> hd t = CHR ''-'');
          u = (if t \<noteq> [] \<and> (hd t = CHR ''-'' \<or> hd t = CHR ''+'') then tl t else t);
          ds = takeWhile is_digit u
      in if ds = [] then None
         else Some (if neg then - int_of_digits ds else int_of_digits ds))"

text \<open>\<open>parseInt(v, 10)\<close> on a value: the value is turned into a string first.\<close>

definition parseInt :: "json option \<Rightarrow> int option" where
  "parseInt v = parse_int (property_key v)"

text \<open>\<open>x || d\<close> for a number \<open>x\<close>: \<open>NaN\<close> and \<open>0\<close> give the default.\<close>

definition or_default :: "int option \<Rightarrow> int \<Rightarrow> int" where
  "or_default x d = (case x of Some k \<Rightarrow> if k \<noteq> 0 then k else d | None \<Rightarrow> d)"

subsection \<open>The options and the page\<close>

type_synonym row = "(string \<times> json) list"

record column =
  col_key :: string
  col_label :: string
  col_render :: "(json option \<Rightarrow> row \<Rightarrow> json option) option"

record table_options =
  opt_columns :: "column list option"
  opt_data :: "row list option"
  opt_pageSize :: "json option"
  opt_currentPage :: "json option"

definition columns_of :: "table_options \<Rightarrow> column list" where
  "columns_of opts = (case opt_columns opts of Some cs \<Rightarrow> cs | None \<Rightarrow> [])"

definition data_of :: "table_options \<Rightarrow> row list" where
  "data_of opts = (case opt_data opts of Some d \<Rightarrow> d | None \<Rightarrow> [])"

definition pageSize_of :: "table_options \<Rightarrow> int" where
  "pageSize_of opts = max 1 (or_default (parseInt (opt_pageSize opts)) 10)"

definition requestedPage_of :: "table_options \<Rightarrow> int" where
  "requestedPage_of opts = max 1 (or_default (parseInt (opt_currentPage opts)) 1)"

text \<open>\<open>Math.ceil(total / pageSize)\<close> for a positive page size.\<close>

definition ceil_div :: "int \<Rightarrow> int \<Rightarrow> int" where
  "ceil_div a b = - ((- a) div b)"

definition total_of :: "table_options \<Rightarrow> int" where
  "total_of opts = int (length (data_of opts))"

definition totalPages_of :: "table_options \<Rightarrow> int" where
  "totalPages_of opts = max 1 (ceil_div (total_of opts) (pageSize_of opts))"

definition currentPage_of :: "table_options \<Rightarrow> int" where
  "currentPage_of opts = min (requestedPage_of opts) (totalPages_of opts)"

definition start_of :: "table_options \<Rightarrow> int" where
  "start_of opts = (currentPage_of opts - 1) * pageSize_of opts"

text \<open>\<open>xs.slice(a, b)\<close>: a negative index counts from the end, and both are clamped.\<close>

definition slice :: "'a list \<Rightarrow> int \<Rightarrow> int \<Rightarrow> 'a list" where
  "slice xs a b =
     (let n = int (length xs);
          k = (if a < 0 then max (n + a) 0 else min a n);
          e = (if b < 0 then max (n + b) 0 else min b n)
      in take (nat (e - k)) (drop (nat k) xs))"

definition pageData_of :: "table_options \<Rightarrow> row list" where
  "pageData_of opts = slice (data_of opts) (start_of opts) (start_of opts + pageSize_of opts)"

subsection \<open>The markup\<close>

text \<open>
  The markup \<open>render\<close> writes into the container, as a tree: the header cells, one
  list of cells for each row of the page, and the pager when there is one.
\<close>

definition escape_html_char :: "char \<Rightarrow> string" where
  "escape_html_char c =
     (if c = CHR ''&'' then ''&amp;''
      else if c = CHR ''<'' then ''&lt;''
      else if c = CHR ''>'' then ''&gt;''
      else if c = CHR 0xA0 then ''&nbsp;''
      else [c])"

definition escapeHtml :: "json option \<Rightarrow> string" where
  "escapeHtml v =
     (case v of
        None \<Rightarrow> []
      | Some JNull \<Rightarrow> []
      | Some j \<Rightarrow> concat (map escape_html_char (js_to_string j)))"

definition header_cell :: "column \<Rightarrow> string" where
  "header_cell col =
     escapeHtml (Some (JStr (if col_label col \<noteq> [] then col_label col else col_key col)))"

text \<open>
  A cell: \<open>row[col.key]\<close>, a property of the row's own, goes through the column's
  \<open>render\<close> when it has one, and is escaped otherwise.
\<close>

definition body_cell :: "row \<Rightarrow> column \<Rightarrow> string" where
  "body_cell r col =
     (let val = map_of r (col_key col)
      in case col_render col of
           Some f \<Rightarrow> (case f val r of None \<Rightarrow> [] | Some JNull \<Rightarrow> [] | Some j \<Rightarrow> js_to_string j)
         | None \<Rightarrow> escapeHtml val)"

datatype pager_item = PageLink int bool | Ellipsis

record pager =
  shown_from :: int
  shown_to :: int
  shown_total :: int
  prev_disabled :: bool
  prev_page :: int
  pager_items :: "pager_item list"
  next_disabled :: bool
  next_page :: int

definition pager_of :: "table_options \<Rightarrow> pager option" where
  "pager_of opts =
     (let totalPages = totalPages_of opts;
          currentPage = currentPage_of opts;
          start = start_of opts;
          from = max 1 (currentPage - 2);
          to = min totalPages (currentPage + 2)
      in if totalPages > 1 then
           Some \<lparr> shown_from = start + 1,
                  shown_to = min (start + pageSize_of opts) (total_of opts),
                  shown_total = total_of opts,
                  prev_disabled = (currentPage \<le> 1),
                  prev_page = currentPage - 1,
                  pager_items =
                    (if from > 1 then [PageLink 1 False] else [])
                    @ (if from > 2 then [Ellipsis] else [])
                    @ map (\<lambda>p. PageLink p (p = currentPage)) [from..to]
                    @ (if to < totalPages - 1 then [Ellipsis] else [])
                    @ (if to < totalPages then [PageLink totalPages False] else []),
                  next_disabled = (currentPage \<ge> totalPages),
                  next_page = currentPage + 1 \<rparr>
         else None)"

record table_view =
  header_cells :: "string list"
  body_rows :: "string list list"
  view_pager :: "pager option"

definition table_markup :: "table_options \<Rightarrow> table_view" where
  "table_markup opts =
     \<lparr> header_cells = map header_cell (columns_of opts),
       body_rows = map (\<lambda>r. map (body_cell r) (columns_of opts)) (pageData_of opts),
       view_pager = pager_of opts \<rparr>"

text \<open>
  \<open>render(containerId, options)\<close> on a document that maps the id of each container to
  its content: a missing container leaves the document as it is.
\<close>

definition render :: "string \<Rightarrow> table_options \<Rightarrow> (string \<rightharpoonup> table_view) \<Rightarrow> (string \<rightharpoonup> table_view)" where
  "render containerId opts doc =
     (case doc containerId of
        None \<Rightarrow> doc
      | Some old \<Rightarrow> doc(containerId \<mapsto> table_markup opts))"

section \<open>Register page\<close>

text \<open>
  The page as the script sees it: the values of the four inputs, whether each input
  carries the class \<open>is-invalid\<close>, the text of each feedback element, the error banner,
  the submit button, the toasts shown, the browser, and the payloads the script has
  handed to \<open>AuraAPI.register\<close>, in order.
\<close>

record register_page =
  regEmail :: string
  regPassword :: string
  regConfirmPassword :: string
  regRole :: string
  regEmail_invalid :: bool
  regPassword_invalid :: bool
  regConfirmPassword_invalid :: bool
  regRole_invalid :: bool
  regEmailError :: string
  regPasswordError :: string
  regConfirmPasswordError :: string
  regRoleError :: string
  registerError_text :: string
  registerError_hidden :: bool
  btn_disabled :: bool
  btn_text :: string
  toasts :: "(string \<times> string) list"
  page_browser :: browser
  register_calls :: "json list"

definition msg_register_failed :: string where
  "msg_register_failed = ''Dang ky that bai.''"

definition msg_register_retry :: string where
  "msg_register_retry = ''Dang ky that bai. Vui long thu lai.''"

definition msg_processing :: string where
  "msg_processing = ''Dang xu ly...''"

definition msg_register :: string where
  "msg_register = ''Dang ky''"

definition msg_email_required :: string where
  "msg_email_required = ''Vui long nhap email.''"

definition msg_email_invalid :: string where
  "msg_email_invalid = ''Email khong hop le.''"

definition msg_password_min :: string where
  "msg_password_min = ''Mat khau toi thieu 6 ky tu.''"

definition msg_password_mismatch :: string where
  "msg_password_mismatch = ''Mat khau khong khop.''"

definition msg_role_required :: string where
  "msg_role_required = ''Vui long chon vai tro.''"

definition msg_register_success :: string where
  "msg_register_success = ''Dang ky thanh cong.''"

definition msg_bad_response :: string where
  "msg_bad_response = ''Phan hoi tu server khong hop le.''"

definition msg_no_connection :: string where
  "msg_no_connection =
     ''Khong the ket noi may chu. Kiem tra backend da chay tai http://localhost:9999 chua.''"

definition showError :: "string \<Rightarrow> register_page \<Rightarrow> register_page" where
  "showError msg pg =
     pg\<lparr>registerError_text := (if msg \<noteq> [] then msg else msg_register_failed),
        registerError_hidden := False\<rparr>"

definition hideError :: "register_page \<Rightarrow> register_page" where
  "hideError pg = pg\<lparr>registerError_hidden := True\<rparr>"

definition setLoading :: "bool \<Rightarrow> register_page \<Rightarrow> register_page" where
  "setLoading loading pg =
     pg\<lparr>btn_disabled := loading, btn_text := (if loading then msg_processing else msg_register)\<rparr>"

definition trim :: "string \<Rightarrow> string" where
  "trim s = rev (dropWhile is_space (rev (dropWhile is_space s)))"

text \<open>
  The test of \<open>/^[^\s@]+@[^\s@]+\.[^\s@]+$/\<close>: one \<open>@\<close>, no white space, something
  before the \<open>@\<close>, and after it a dot that is neither its first nor its last character.
\<close>

definition email_char :: "char \<Rightarrow> bool" where
  "email_char c = (\<not> is_space c \<and> c \<noteq> CHR ''@'')"

definition email_ok :: "string \<Rightarrow> bool" where
  "email_ok s =
     (case split_on CHR ''@'' s of
        [a, d] \<Rightarrow> a \<noteq> [] \<and> list_all email_char a \<and> list_all email_char d
                  \<and> CHR ''.'' \<in> set (butlast (tl d))
      | _ \<Rightarrow> False)"

definition validate_email :: "register_page \<Rightarrow> bool \<times> register_page" where
  "validate_email pg =
     (let email = trim (regEmail pg)
      in if email = [] then
           (False, pg\<lparr>regEmail_invalid := True, regEmailError := msg_email_required\<rparr>)
         else if \<not> email_ok email then
           (False, pg\<lparr>regEmail_invalid := True, regEmailError := msg_email_invalid\<rparr>)
         else (True, pg\<lparr>regEmail_invalid := False\<rparr>))"

definition validate_password :: "register_page \<Rightarrow> bool \<times> register_page" where
  "validate_password pg =
     (if length (regPassword pg) < 6 then
        (False, pg\<lparr>regPassword_invalid := True, regPasswordError := msg_password_min\<rparr>)
      else (True, pg\<lparr>regPassword_invalid := False\<rparr>))"

definition validate_confirm :: "register_page \<Rightarrow> bool \<times> register_page" where
  "validate_confirm pg =
     (if regPassword pg \<noteq> regConfirmPassword pg then
        (False, pg\<lparr>regConfirmPassword_invalid := True,
                   regConfirmPasswordError := msg_password_mismatch\<rparr>)
      else (True, pg\<lparr>regConfirmPassword_invalid := False\<rparr>))"

definition validate_role :: "register_page \<Rightarrow> bool \<times> register_page" where
  "validate_role pg =
     (if regRole pg = [] then
        (False, pg\<lparr>regRole_invalid := True, regRoleError := msg_role_required\<rparr>)
      else (True, pg\<lparr>regRole_invalid := False\<rparr>))"

text \<open>
  \<open>validate()\<close>: the four checks run one after the other, every one of them, and the
  result is valid when none has failed.
\<close>

definition validate :: "register_page \<Rightarrow> bool \<times> register_page" where
  "validate pg =
     (let (v1, pg1) = validate_email pg;
          (v2, pg2) = validate_password pg1;
          (v3, pg3) = validate_confirm pg2;
          (v4, pg4) = validate_role pg3
      in (v1 \<and> v2 \<and> v3 \<and> v4, pg4))"

definition register ::
  "string \<Rightarrow> storage \<Rightarrow> (string \<Rightarrow> request_opts \<Rightarrow> fetch_result) \<Rightarrow> json \<Rightarrow> json promise" where
  "register api_base ls fetch payload =
     request api_base ls fetch ''POST'' ''/api/auth/register'' payload False"

definition exn_message :: "exn \<Rightarrow> string" where
  "exn_message e = (case e of Error m \<Rightarrow> m | TypeError m \<Rightarrow> m)"

definition register_payload :: "register_page \<Rightarrow> json" where
  "register_payload pg =
     JObj [(''email'', JStr (trim (regEmail pg))),
           (''password'', JStr (regPassword pg)),
           (''role_id'', (case parse_int (regRole pg) of Some i \<Rightarrow> JNum i | None \<Rightarrow> JNull))]"

definition on_register_result :: "json promise \<Rightarrow> register_page \<Rightarrow> register_page" where
  "on_register_result res pg =
     (case res of
        Resolved r \<Rightarrow>
          (case setAuthFromResponse r (page_browser pg) of
             (True, b) \<Rightarrow>
               pg\<lparr>toasts := toasts pg @ [(msg_register_success, ''success'')],
                  page_browser := redirectByRole b\<rparr>
           | (False, b) \<Rightarrow> showError msg_bad_response (pg\<lparr>page_browser := b\<rparr>))
      | Rejected err \<Rightarrow>
          (let msg0 = (if exn_message err \<noteq> [] then exn_message err else msg_register_retry);
               msg = (if contains msg0 ''Failed to fetch'' \<or> contains msg0 ''NetworkError''
                         \<or> contains msg0 ''Load failed''
                      then msg_no_connection else msg0)
           in showError msg pg))"

text \<open>
  The handler of the form's \<open>submit\<close> event. \<open>api_base\<close> and \<open>fetch\<close> stand for the
  configured backend and the browser's \<open>fetch\<close>.
\<close>

definition on_submit ::
  "string \<Rightarrow> (string \<Rightarrow> request_opts \<Rightarrow> fetch_result) \<Rightarrow> register_page \<Rightarrow> register_page" where
  "on_submit api_base fetch pg =
     (case validate (hideError pg) of
        (False, pg1) \<Rightarrow> pg1
      | (True, pg1) \<Rightarrow>
          (let pg2 = setLoading True pg1;
               payload = register_payload pg2;
               pg3 = pg2\<lparr>register_calls := register_calls pg2 @ [payload]\<rparr>;
               res = register api_base (localStorage (page_browser pg3)) fetch payload
           in setLoading False (on_register_result res pg3)))"

text \<open>A filled-in form, for the examples below.\<close>

definition form_abc :: register_page where
  "form_abc =
     \<lparr> regEmail = ''an@example.org'', regPassword = ''abc'', regConfirmPassword = ''abcdef'',
       regRole = ''3'',
       regEmail_invalid = False, regPassword_invalid = False,
       regConfirmPassword_invalid = False, regRole_invalid = False,
       regEmailError = [], regPasswordError = [], regConfirmPasswordError = [], regRoleError = [],
       registerError_text = [], registerError_hidden = True,
       btn_disabled = False, btn_text = msg_register, toasts = [],
       page_browser = \<lparr>localStorage = Map.empty, origin = ''http://h'',
                        pathname = ''/register.html'', href = None\<rparr>,
       register_calls = [] \<rparr>"

section \<open>Reading a pager\<close>

text \<open>
  What a reader sees in the list of pager items: the page numbers that have a link, and
  whether the gaps are marked, that is, whether the list starts and ends with a link,
  each link is followed by the link of the next page or by an ellipsis and the link of a
  later page that is not the next one, and an ellipsis stands nowhere else.
\<close>

definition shown_pages :: "pager_item list \<Rightarrow> int set" where
  "shown_pages items = {p. \<exists>a. PageLink p a \<in> set items}"

fun gaps_marked :: "pager_item list \<Rightarrow> bool" where
  "gaps_marked [PageLink p a] = True"
| "gaps_marked (PageLink p a # PageLink q b # r) = (q = p + 1 \<and> gaps_marked (PageLink q b # r))"
| "gaps_marked (PageLink p a # Ellipsis # PageLink q b # r) =
     (p + 1 < q \<and> gaps_marked (PageLink q b # r))"
| "gaps_marked items = False"

definition marks_current :: "int \<Rightarrow> pager_item list \<Rightarrow> bool" where
  "marks_current c items = (\<forall>p a. PageLink p a \<in> set items \<longrightarrow> a = (p = c))"

text \<open>The links that the loop over the window writes.\<close>

definition page_links :: "int \<Rightarrow> int \<Rightarrow> int \<Rightarrow> pager_item list" where
  "page_links c i j = map (\<lambda>p. PageLink p (p = c)) [i..j]"

section \<open>Properties of the HTTP client\<close>

lemma guarded_message_first:
  "guarded data ''message'' = Some m \<Longrightarrow> parseErrorMessage status data = Inr m"
  by (simp add: parseErrorMessage_def)

text \<open>
  The branch of \<open>parseErrorMessage\<close> for status 401 that appends the request to log in
  again is never taken: it needs a truthy \<open>data.message\<close>, and with one the function has
  returned in its first line. What status 401 gives is the message, else the error field,
  else the fixed string about the credentials.
\<close>

lemma parseErrorMessage_401:
  "parseErrorMessage 401 data =
     (case guarded data ''message'' of
        Some m \<Rightarrow> Inr m
      | None \<Rightarrow>
          (case guarded data ''error'' of
             Some e \<Rightarrow> Inr e
           | None \<Rightarrow> Inr (JStr msg_bad_credentials)))"
  by (simp add: parseErrorMessage_def status_message_def split: option.splits)

text \<open>The fixed strings of 409 and 501 are what a body without message and error gets.\<close>

lemma parseErrorMessage_fixed_strings:
  assumes "guarded (JObj kvs) ''message'' = None" and "guarded (JObj kvs) ''error'' = None"
  shows "parseErrorMessage 409 (JObj kvs) = Inr (JStr msg_email_taken)"
    and "parseErrorMessage 501 (JObj kvs) = Inr (JStr msg_feature_updating)"
  using assms
  by (auto simp: parseErrorMessage_def status_message_def message_or_def guarded_def
      split: option.splits if_splits)

text \<open>
  C1, as the claim states it, fails: a body with a non-empty \<open>message\<close> decides the error
  string also under the statuses 409, 501 and 422, whose fixed string or joined field
  errors are not used then, and an empty \<open>message\<close> is passed over in favour of the string
  of the status.
\<close>

theorem request_error_override_counterexample:
  "request ''http://localhost:9999'' Map.empty
      (\<lambda>url opts. Response 409 (Some (JObj [(''message'', JStr ''Conflict'')])))
      ''POST'' ''/api/auth/register'' JNull False
    = Rejected (Error ''Conflict'')
   \<and> ''Conflict'' \<noteq> msg_email_taken
   \<and> request ''http://localhost:9999'' Map.empty
      (\<lambda>url opts. Response 501 (Some (JObj [(''message'', JStr ''Not implemented'')])))
      ''POST'' ''/api/auth/forgot-password'' JNull False
    = Rejected (Error ''Not implemented'')
   \<and> ''Not implemented'' \<noteq> msg_feature_updating
   \<and> request ''http://localhost:9999'' Map.empty
      (\<lambda>url opts. Response 422
         (Some (JObj [(''message'', JStr ''Invalid''), (''errors'', JObj [(''email'', JArr [JStr ''bad''])])])))
      ''POST'' ''/api/auth/register'' JNull False
    = Rejected (Error ''Invalid'')
   \<and> ''Invalid'' \<noteq> ''bad''
   \<and> request ''http://localhost:9999'' Map.empty
      (\<lambda>url opts. Response 500 (Some (JObj [(''message'', JStr [])])))
      ''GET'' ''/api/patients/1'' JNull True
    = Rejected (Error msg_server_error)
   \<and> msg_server_error \<noteq> []"
  by (simp add: request_def res_ok_def parseErrorMessage_def status_message_def guarded_def
      message_or_def msg_email_taken_def msg_feature_updating_def msg_server_error_def)

text \<open>
  C1, amended: for every response with a status of 400 or more, other than 401, whose JSON
  body holds a non-empty string as its \<open>message\<close>, the error that rejects the request
  carries that message. The statuses 409, 422 and 501 make no exception: their fixed
  strings stand in only when the body has no such field.
\<close>

theorem request_error_carries_message:
  assumes resp: "fetch (api_base @ path) (request_options ls method body useAuth)
                   = Response status (Some data)"
    and st: "400 \<le> status" "status \<noteq> 401"
    and msg: "get_prop data ''message'' = Inr (Some (JStr s))" "s \<noteq> []"
  shows "request api_base ls fetch method path body useAuth = Rejected (Error s)"
proof -
  have "\<not> res_ok status" using st by (simp add: res_ok_def)
  moreover have "truthy data" using msg(1) by (cases data) simp_all
  then have "guarded data ''message'' = Some (JStr s)"
    using msg by (simp add: guarded_def)
  then have "parseErrorMessage status data = Inr (JStr s)"
    by (rule guarded_message_first)
  ultimately show ?thesis using resp by (simp add: request_def)
qed

theorem request_error_carries_message_witness:
  "get_prop (JObj [(''message'', JStr ''Conflict'')]) ''message'' = Inr (Some (JStr ''Conflict''))
   \<and> request ''http://localhost:9999'' Map.empty
        (\<lambda>url opts. Response 409 (Some (JObj [(''message'', JStr ''Conflict'')])))
        ''POST'' ''/api/auth/register'' JNull False
      = Rejected (Error ''Conflict'')"
proof -
  have g: "get_prop (JObj [(''message'', JStr ''Conflict'')]) ''message''
             = Inr (Some (JStr ''Conflict''))"
    by simp
  have ne: "''Conflict'' \<noteq> []" by simp
  have r: "(\<lambda>url opts. Response 409 (Some (JObj [(''message'', JStr ''Conflict'')])))
             (''http://localhost:9999'' @ ''/api/auth/register'')
             (request_options Map.empty ''POST'' JNull False)
           = Response 409 (Some (JObj [(''message'', JStr ''Conflict'')]))"
    by simp
  have st: "(400::nat) \<le> 409" "(409::nat) \<noteq> 401" by simp_all
  show ?thesis
    using g request_error_carries_message [OF r st g ne] by simp
qed

text \<open>
  C6: a response with a 2xx status resolves the request with the parsed body; a response
  with any other status rejects it with an error; a failure of \<open>fetch\<close> itself rejects it
  with the message that names the unreachable backend. So the request is rejected exactly
  when the response is not 2xx or the host is unreachable.
\<close>

theorem request_outcome:
  assumes "fetch (api_base @ path) (request_options ls method body useAuth) = fr"
  shows "(\<forall>status j. fr = Response status (Some j) \<and> res_ok status
            \<longrightarrow> request api_base ls fetch method path body useAuth = Resolved j)
       \<and> (\<forall>status parsed. fr = Response status parsed \<and> \<not> res_ok status
            \<longrightarrow> (\<exists>e. request api_base ls fetch method path body useAuth = Rejected e))
       \<and> (fr = NetworkFailure
            \<longrightarrow> request api_base ls fetch method path body useAuth
                = Rejected (Error (msg_unreachable api_base)))
       \<and> ((\<exists>e. request api_base ls fetch method path body useAuth = Rejected e)
            \<longleftrightarrow> (fr = NetworkFailure
                 \<or> (\<exists>status parsed. fr = Response status parsed \<and> \<not> res_ok status)))"
proof (cases fr)
  case NetworkFailure
  then show ?thesis using assms by (simp add: request_def)
next
  case (Response status parsed)
  show ?thesis
  proof (cases "res_ok status")
    case True
    then show ?thesis using assms Response
      by (auto simp: request_def split: option.splits)
  next
    case False
    then show ?thesis using assms Response
      by (auto simp: request_def Let_def split: sum.splits)
  qed
qed

theorem request_outcome_witness:
  "res_ok 200 \<and> \<not> res_ok 404
   \<and> request ''http://localhost:9999'' Map.empty
        (\<lambda>url opts. Response 200 (Some (JObj [(''data'', JNum 7)])))
        ''GET'' ''/api/patients/7'' JNull True
      = Resolved (JObj [(''data'', JNum 7)])
   \<and> (\<exists>e. request ''http://localhost:9999'' Map.empty
        (\<lambda>url opts. Response 404 (Some (JObj [])))
        ''GET'' ''/api/patients/7'' JNull True = Rejected e)
   \<and> request ''http://localhost:9999'' Map.empty
        (\<lambda>url opts. NetworkFailure) ''GET'' ''/api/patients/7'' JNull True
      = Rejected (Error (msg_unreachable ''http://localhost:9999''))"
proof -
  have ok: "res_ok 200" "\<not> res_ok 404" by (simp_all add: res_ok_def)
  have a: "(\<lambda>url opts. Response 200 (Some (JObj [(''data'', JNum 7)])))
             (''http://localhost:9999'' @ ''/api/patients/7'')
             (request_options Map.empty ''GET'' JNull True)
           = Response 200 (Some (JObj [(''data'', JNum 7)]))"
    by simp
  have b: "(\<lambda>url opts. Response 404 (Some (JObj [])))
             (''http://localhost:9999'' @ ''/api/patients/7'')
             (request_options Map.empty ''GET'' JNull True)
           = Response 404 (Some (JObj []))"
    by simp
  have c: "(\<lambda>url opts. NetworkFailure)
             (''http://localhost:9999'' @ ''/api/patients/7'')
             (request_options Map.empty ''GET'' JNull True)
           = NetworkFailure"
    by simp
  have 1: "request ''http://localhost:9999'' Map.empty
        (\<lambda>url opts. Response 200 (Some (JObj [(''data'', JNum 7)])))
        ''GET'' ''/api/patients/7'' JNull True
      = Resolved (JObj [(''data'', JNum 7)])"
    using request_outcome [OF a, THEN conjunct1, rule_format, of 200 "JObj [(''data'', JNum 7)]"] ok(1)
    by simp
  have 2: "\<exists>e. request ''http://localhost:9999'' Map.empty
        (\<lambda>url opts. Response 404 (Some (JObj [])))
        ''GET'' ''/api/patients/7'' JNull True = Rejected e"
    using request_outcome [OF b, THEN conjunct2, THEN conjunct1, rule_format, of 404 "Some (JObj [])"]
      ok(2)
    by simp
  have 3: "request ''http://localhost:9999'' Map.empty
        (\<lambda>url opts. NetworkFailure) ''GET'' ''/api/patients/7'' JNull True
      = Rejected (Error (msg_unreachable ''http://localhost:9999''))"
    using request_outcome [OF c, THEN conjunct2, THEN conjunct2, THEN conjunct1]
    by simp
  show ?thesis using ok 1 2 3 by (intro conjI)
qed

text \<open>
  C8: a response with a 2xx status whose body is not valid JSON resolves the request
  with the empty object; the failure to parse the body is swallowed.
\<close>

theorem request_2xx_invalid_json_resolves_empty:
  assumes resp: "fetch (api_base @ path) (request_options ls method body useAuth)
                   = Response status None"
    and ok: "res_ok status"
  shows "request api_base ls fetch method path body useAuth = Resolved (JObj [])"
proof -
  have "request api_base ls fetch method path body useAuth
      = (if \<not> res_ok status
         then (case parseErrorMessage status (JObj []) of
                 Inl e \<Rightarrow> Rejected e
               | Inr m \<Rightarrow> Rejected (Error (js_to_string m)))
         else Resolved (JObj []))"
    using resp by (simp add: request_def)
  then show ?thesis using ok by simp
qed

theorem request_2xx_invalid_json_witness:
  "res_ok 204
   \<and> request ''http://localhost:9999'' Map.empty (\<lambda>url opts. Response 204 None)
       ''GET'' ''/api/patients/1'' JNull True = Resolved (JObj [])"
proof -
  have ok: "res_ok 204" by (simp add: res_ok_def)
  have r: "(\<lambda>url opts. Response 204 None)
             (''http://localhost:9999'' @ ''/api/patients/1'')
             (request_options Map.empty ''GET'' JNull True)
           = Response 204 None"
    by simp
  show ?thesis using ok request_2xx_invalid_json_resolves_empty [OF r ok] by simp
qed

section \<open>Properties of the session store\<close>

lemma dec_digits_nonempty: "dec_digits n \<noteq> []"
  by (subst dec_digits.simps) simp

lemma dec_digits_small: "n < 10 \<Longrightarrow> dec_digits n = [''0123456789'' ! n]"
  by (subst dec_digits.simps) simp

lemma dec_digits_large:
  assumes "\<not> n < 10"
  shows "length (dec_digits n) \<ge> 2"
proof -
  have "dec_digits n = dec_digits (n div 10) @ [''0123456789'' ! (n mod 10)]"
    using assms by (subst dec_digits.simps) simp
  moreover have "length (dec_digits (n div 10)) \<ge> 1"
    using dec_digits_nonempty [of "n div 10"] by (cases "dec_digits (n div 10)") auto
  ultimately show ?thesis by simp
qed

lemma dec_digits_one_to_four:
  assumes "dec_digits n \<in> {''1'', ''2'', ''3'', ''4''}"
  shows "n \<in> {1, 2, 3, 4}"
proof (cases "n < 10")
  case True
  then consider "n = 0" | "n = 1" | "n = 2" | "n = 3" | "n = 4"
    | "n = 5" | "n = 6" | "n = 7" | "n = 8" | "n = 9"
    by atomize_elim arith
  then show ?thesis using assms by cases (simp_all add: dec_digits_small)
next
  case False
  then have "length (dec_digits n) \<ge> 2" by (rule dec_digits_large)
  with assms show ?thesis by auto
qed

lemma digit_chars: "n < 10 \<Longrightarrow> ''0123456789'' ! n \<in> set ''0123456789''"
  by (rule nth_mem) simp

lemma hd_dec_digits: "hd (dec_digits n) \<in> set ''0123456789''"
proof (induction n rule: dec_digits.induct)
  case (1 n)
  show ?case
  proof (cases "n < 10")
    case True
    then show ?thesis using digit_chars [OF True] by (simp add: dec_digits_small)
  next
    case False
    have "dec_digits n = dec_digits (n div 10) @ [''0123456789'' ! (n mod 10)]"
      using False by (subst dec_digits.simps) simp
    then have "hd (dec_digits n) = hd (dec_digits (n div 10))"
      using dec_digits_nonempty [of "n div 10"] by simp
    then show ?thesis using "1.IH" [OF False] by simp
  qed
qed

lemma hd_show_int: "hd (show_int i) \<in> set ''-0123456789''"
  using hd_dec_digits [of "nat i"] by (simp add: show_int_def)

text \<open>The string form of a number names no member that objects inherit.\<close>

lemma number_not_inherited: "show_int i \<notin> set object_prototype_keys"
proof
  assume "show_int i \<in> set object_prototype_keys"
  then have "hd (show_int i) \<in> set ''c h i p t v _''"
    by (auto simp: object_prototype_keys_def)
  moreover have "hd (show_int i) \<in> set ''-0123456789''" by (rule hd_show_int)
  ultimately show False by auto
qed

text \<open>A numeric role id reaches the role table exactly when it is 1, 2, 3 or 4.\<close>

lemma numeric_role_key:
  "property_key (Some (JNum n)) \<in> {''1'', ''2'', ''3'', ''4''} \<longleftrightarrow> n \<in> {1, 2, 3, 4}"
proof
  assume a: "property_key (Some (JNum n)) \<in> {''1'', ''2'', ''3'', ''4''}"
  show "n \<in> {1, 2, 3, 4}"
  proof (cases "n < 0")
    case True
    with a show ?thesis by (auto simp: property_key_def show_int_def)
  next
    case False
    with a have "dec_digits (nat n) \<in> {''1'', ''2'', ''3'', ''4''}"
      by (simp add: property_key_def show_int_def)
    then have "nat n \<in> {1, 2, 3, 4}" by (rule dec_digits_one_to_four)
    with False show ?thesis by auto
  qed
next
  assume "n \<in> {1, 2, 3, 4}"
  then show "property_key (Some (JNum n)) \<in> {''1'', ''2'', ''3'', ''4''}"
    by (auto simp: property_key_def show_int_def dec_digits_small)
qed

lemma keys_distinct:
  "KEY_TOKEN \<noteq> KEY_USER" "KEY_TOKEN \<noteq> KEY_ROLE" "KEY_USER \<noteq> KEY_ROLE"
  "KEY_USER \<noteq> KEY_TOKEN" "KEY_ROLE \<noteq> KEY_TOKEN" "KEY_ROLE \<noteq> KEY_USER"
  by (simp_all add: KEY_TOKEN_def KEY_USER_def KEY_ROLE_def)

lemma role_name_outside:
  assumes "k \<notin> {''1'', ''2'', ''3'', ''4''}" and "k \<notin> set object_prototype_keys"
  shows "table_lookup role_names k = None"
  using assms by (simp add: table_lookup_def role_names_def)

lemma role_name_missing: "getRoleNameByRoleId None = []"
  by (simp add: getRoleNameByRoleId_def table_lookup_def role_names_def property_key_def
      object_prototype_keys_def)

lemma role_name_other_number:
  assumes "n \<notin> {1, 2, 3, 4}"
  shows "getRoleNameByRoleId (Some (JNum n)) = []"
proof -
  have "property_key (Some (JNum n)) \<notin> {''1'', ''2'', ''3'', ''4''}"
    using assms by (simp only: numeric_role_key not_False_eq_True)
  moreover have "property_key (Some (JNum n)) \<notin> set object_prototype_keys"
    using number_not_inherited [of n] by (simp add: property_key_def)
  ultimately have "table_lookup role_names (property_key (Some (JNum n))) = None"
    by (rule role_name_outside)
  then show ?thesis by (simp add: getRoleNameByRoleId_def)
qed

lemma role_name_table:
  "getRoleNameByRoleId (Some (JNum 1)) = ''Admin''"
  "getRoleNameByRoleId (Some (JNum 2)) = ''Doctor''"
  "getRoleNameByRoleId (Some (JNum 3)) = ''Patient''"
  "getRoleNameByRoleId (Some (JNum 4)) = ''ClinicManager''"
  by (simp_all add: getRoleNameByRoleId_def table_lookup_def role_names_def property_key_def
      show_int_def dec_digits_small)




text \<open>
  C5: the response \<open>{data: {access_token: 't', role_id: 3}}\<close> makes
  \<open>setAuthFromResponse\<close> store the role \<open>Patient\<close> and return true, whatever the
  browser held before. A response whose payload (its \<open>data\<close> when it has one, else the
  response itself) has no \<open>access_token\<close>, or a falsy one, makes it return false and
  leaves the browser, and so the three storage keys, as they were.
\<close>

theorem setAuthFromResponse_contract:
  "fst (setAuthFromResponse
          (JObj [(''data'', JObj [(''access_token'', JStr ''t''), (''role_id'', JNum 3)])]) b) = True
   \<and> localStorage (snd (setAuthFromResponse
          (JObj [(''data'', JObj [(''access_token'', JStr ''t''), (''role_id'', JNum 3)])]) b)) KEY_ROLE
       = Some ''Patient''
   \<and> (guarded (payload_of resp) ''access_token'' = None
        \<longrightarrow> setAuthFromResponse resp b = (False, b))"
proof -
  let ?r = "JObj [(''data'', JObj [(''access_token'', JStr ''t''), (''role_id'', JNum 3)])]"
  have p: "payload_of ?r = JObj [(''access_token'', JStr ''t''), (''role_id'', JNum 3)]"
    by (simp add: payload_of_def guarded_def)
  have g: "guarded (payload_of ?r) ''access_token'' = Some (JStr ''t'')"
    by (simp add: p guarded_def)
  have eq: "setAuthFromResponse ?r b
      = (True, setAuth (JStr ''t'') (user_of [(''access_token'', JStr ''t''), (''role_id'', JNum 3)])
                 (JStr ''Patient'') b)"
    using g by (simp add: setAuthFromResponse_def Let_def p role_name_table)
  have stored: "localStorage (snd (setAuthFromResponse ?r b)) KEY_ROLE = Some ''Patient''"
    unfolding eq by (simp add: setAuth_def Let_def)
  have lacking: "guarded (payload_of resp) ''access_token'' = None
      \<longrightarrow> setAuthFromResponse resp b = (False, b)"
    by (simp add: setAuthFromResponse_def Let_def)
  show ?thesis using eq stored lacking by simp
qed

theorem setAuthFromResponse_contract_witness:
  "guarded (payload_of (JObj [(''data'', JObj [(''email'', JStr ''a@b.c'')])])) ''access_token'' = None
   \<and> setAuthFromResponse (JObj [(''data'', JObj [(''email'', JStr ''a@b.c'')])])
        \<lparr>localStorage = Map.empty, origin = ''http://h'', pathname = ''/login.html'', href = None\<rparr>
      = (False, \<lparr>localStorage = Map.empty, origin = ''http://h'', pathname = ''/login.html'',
                  href = None\<rparr>)"
proof -
  have g: "guarded (payload_of (JObj [(''data'', JObj [(''email'', JStr ''a@b.c'')])])) ''access_token''
             = None"
    by (simp add: payload_of_def guarded_def)
  show ?thesis
    using g setAuthFromResponse_contract
      [of "\<lparr>localStorage = Map.empty, origin = ''http://h'', pathname = ''/login.html'', href = None\<rparr>"
          "JObj [(''data'', JObj [(''email'', JStr ''a@b.c'')])]"]
    by simp
qed

text \<open>
  A payload with a token and no role name for its \<open>role_id\<close>: the token and the user are
  written, the role key is not touched.
\<close>

lemma setAuthFromResponse_without_role_name:
  assumes payload: "payload_of resp = JObj kvs"
    and tok: "map_of kvs ''access_token'' = Some token" "truthy token"
    and rid: "getRoleNameByRoleId (map_of kvs ''role_id'') = []"
  shows "setAuthFromResponse resp b
      = (True, b\<lparr>localStorage := (localStorage b)(KEY_TOKEN \<mapsto> js_to_string token,
                                                    KEY_USER \<mapsto> stringify (user_of kvs))\<rparr>)"
proof -
  have g: "guarded (JObj kvs) ''access_token'' = Some token"
    using tok by (simp add: guarded_def)
  have u: "truthy (user_of kvs)" by (simp add: user_of_def)
  show ?thesis
    using payload g rid u tok(2) by (simp add: setAuthFromResponse_def setAuth_def Let_def)
qed

text \<open>A role id that is a number other than 1, 2, 3 and 4 has no role name.\<close>

lemma numeric_role_id_outside:
  assumes "n \<notin> {1, 2, 3, 4}"
  shows "property_key (Some (JNum n)) \<notin> {''1'', ''2'', ''3'', ''4''}"
    and "property_key (Some (JNum n)) \<notin> set object_prototype_keys"
proof -
  show "property_key (Some (JNum n)) \<notin> {''1'', ''2'', ''3'', ''4''}"
    using assms by (simp only: numeric_role_key not_False_eq_True)
  show "property_key (Some (JNum n)) \<notin> set object_prototype_keys"
    using number_not_inherited [of n] by (simp add: property_key_def)
qed

text \<open>
  C10, as the claim states it, fails. A \<open>role_id\<close> outside 1, 2, 3 and 4 can still find
  something in the table of role names: the key \<open>constructor\<close> reaches a member that the
  table inherits, which is truthy, and the role key, \<open>Doctor\<close> before, is overwritten
  with the text of that member. And a body whose \<open>access_token\<close> is the empty string
  contains the field, but nothing is written and the result is false.
\<close>

theorem setAuthFromResponse_role_overwritten_counterexample:
  "fst (setAuthFromResponse (JObj [(''access_token'', JStr ''t''), (''role_id'', JStr ''constructor'')])
          \<lparr>localStorage = [KEY_ROLE \<mapsto> ''Doctor''], origin = ''http://h'',
            pathname = ''/login.html'', href = None\<rparr>) = True
   \<and> localStorage (snd (setAuthFromResponse
          (JObj [(''access_token'', JStr ''t''), (''role_id'', JStr ''constructor'')])
          \<lparr>localStorage = [KEY_ROLE \<mapsto> ''Doctor''], origin = ''http://h'',
            pathname = ''/login.html'', href = None\<rparr>)) KEY_ROLE
       = Some ''function Object() { [native code] }''
   \<and> localStorage \<lparr>localStorage = [KEY_ROLE \<mapsto> ''Doctor''], origin = ''http://h'',
                     pathname = ''/login.html'', href = None\<rparr> KEY_ROLE
       = Some ''Doctor''
   \<and> setAuthFromResponse (JObj [(''access_token'', JStr []), (''role_id'', JNum 9)])
          \<lparr>localStorage = [KEY_ROLE \<mapsto> ''Doctor''], origin = ''http://h'',
            pathname = ''/login.html'', href = None\<rparr>
       = (False, \<lparr>localStorage = [KEY_ROLE \<mapsto> ''Doctor''], origin = ''http://h'',
                   pathname = ''/login.html'', href = None\<rparr>)"
proof -
  let ?b = "\<lparr>localStorage = [KEY_ROLE \<mapsto> ''Doctor''], origin = ''http://h'',
             pathname = ''/login.html'', href = None\<rparr>"
  let ?r = "JObj [(''access_token'', JStr ''t''), (''role_id'', JStr ''constructor'')]"
  have name: "getRoleNameByRoleId (Some (JStr ''constructor'')) = ''function Object() { [native code] }''"
    by (simp add: getRoleNameByRoleId_def table_lookup_def role_names_def property_key_def
        object_prototype_keys_def inherited_text_def)
  have p: "payload_of ?r = ?r" by (simp add: payload_of_def guarded_def)
  have eq: "setAuthFromResponse ?r ?b
      = (True, setAuth (JStr ''t'')
                 (user_of [(''access_token'', JStr ''t''), (''role_id'', JStr ''constructor'')])
                 (JStr ''function Object() { [native code] }'') ?b)"
    by (simp add: setAuthFromResponse_def Let_def p guarded_def name)
  have 1: "fst (setAuthFromResponse ?r ?b) = True" by (simp only: eq fst_conv)
  have 2: "localStorage (snd (setAuthFromResponse ?r ?b)) KEY_ROLE
             = Some ''function Object() { [native code] }''"
    unfolding eq by (simp add: setAuth_def Let_def)
  have 3: "localStorage ?b KEY_ROLE = Some ''Doctor''" by simp
  have 4: "setAuthFromResponse (JObj [(''access_token'', JStr []), (''role_id'', JNum 9)]) ?b
             = (False, ?b)"
    by (simp add: setAuthFromResponse_def Let_def payload_of_def guarded_def)
  show ?thesis using 1 2 3 4 by (intro conjI)
qed

text \<open>
  C10, amended: when the payload of the response holds a truthy \<open>access_token\<close> and a
  \<open>role_id\<close> that is missing, or whose property key (its string form) is none of 1, 2, 3
  and 4 and names no member that every object inherits, \<open>setAuthFromResponse\<close> returns
  true, writes the token and the user, and leaves the role key as it was. The session is
  then logged in, as long as the token's string form is not empty, and without any role
  when none was stored before. The token and the \<open>role_id\<close> are values that are turned
  into strings without an exception. A \<open>role_id\<close> that is \<open>null\<close>, a boolean, a string
  such as \<open>5\<close> or a number other than 1, 2, 3 and 4 (lemma \<open>numeric_role_id_outside\<close>)
  is of this kind.
\<close>

theorem setAuthFromResponse_unknown_role:
  assumes payload: "payload_of resp = JObj kvs"
    and tok: "map_of kvs ''access_token'' = Some token" "truthy token" "stringable token"
    and rid: "map_of kvs ''role_id'' = None
              \<or> (\<exists>v. map_of kvs ''role_id'' = Some v \<and> stringable v)"
    and key: "property_key (map_of kvs ''role_id'') \<notin> {''1'', ''2'', ''3'', ''4''}"
             "property_key (map_of kvs ''role_id'') \<notin> set object_prototype_keys"
  shows "fst (setAuthFromResponse resp b) = True
       \<and> localStorage (snd (setAuthFromResponse resp b)) KEY_TOKEN = Some (js_to_string token)
       \<and> localStorage (snd (setAuthFromResponse resp b)) KEY_USER = Some (stringify (user_of kvs))
       \<and> localStorage (snd (setAuthFromResponse resp b)) KEY_ROLE = localStorage b KEY_ROLE
       \<and> (js_to_string token \<noteq> [] \<longrightarrow> isLoggedIn (snd (setAuthFromResponse resp b)))
       \<and> (localStorage b KEY_ROLE = None \<longrightarrow> getRole (snd (setAuthFromResponse resp b)) = [])"
proof -
  have "table_lookup role_names (property_key (map_of kvs ''role_id'')) = None"
    using key by (rule role_name_outside)
  then have r: "getRoleNameByRoleId (map_of kvs ''role_id'') = []"
    by (simp add: getRoleNameByRoleId_def)
  note eq = setAuthFromResponse_without_role_name [OF payload tok(1,2) r, of b]
  have 1: "fst (setAuthFromResponse resp b) = True" by (simp only: eq fst_conv)
  have 2: "localStorage (snd (setAuthFromResponse resp b)) KEY_TOKEN = Some (js_to_string token)"
    unfolding eq by (simp add: keys_distinct)
  have 3: "localStorage (snd (setAuthFromResponse resp b)) KEY_USER = Some (stringify (user_of kvs))"
    unfolding eq by simp
  have 4: "localStorage (snd (setAuthFromResponse resp b)) KEY_ROLE = localStorage b KEY_ROLE"
    unfolding eq by (simp add: keys_distinct)
  have 5: "js_to_string token \<noteq> [] \<longrightarrow> isLoggedIn (snd (setAuthFromResponse resp b))"
    unfolding eq by (simp add: keys_distinct isLoggedIn_def getToken_def)
  have 6: "localStorage b KEY_ROLE = None \<longrightarrow> getRole (snd (setAuthFromResponse resp b)) = []"
    unfolding eq by (simp add: keys_distinct getRole_def)
  show ?thesis using 1 2 3 4 5 6 by (intro conjI)
qed

theorem setAuthFromResponse_unknown_role_witness:
  "fst (setAuthFromResponse (JObj [(''access_token'', JStr ''t''), (''role_id'', JNum 9)])
          \<lparr>localStorage = Map.empty, origin = ''http://h'', pathname = ''/login.html'', href = None\<rparr>)
     = True
   \<and> localStorage (snd (setAuthFromResponse (JObj [(''access_token'', JStr ''t''), (''role_id'', JNum 9)])
          \<lparr>localStorage = Map.empty, origin = ''http://h'', pathname = ''/login.html'', href = None\<rparr>))
        KEY_ROLE = None
   \<and> isLoggedIn (snd (setAuthFromResponse (JObj [(''access_token'', JStr ''t''), (''role_id'', JNum 9)])
          \<lparr>localStorage = Map.empty, origin = ''http://h'', pathname = ''/login.html'', href = None\<rparr>))
   \<and> getRole (snd (setAuthFromResponse (JObj [(''access_token'', JStr ''t''), (''role_id'', JNum 9)])
          \<lparr>localStorage = Map.empty, origin = ''http://h'', pathname = ''/login.html'', href = None\<rparr>))
     = []
   \<and> fst (setAuthFromResponse (JObj [(''access_token'', JStr ''t''), (''role_id'', JStr ''5'')])
          \<lparr>localStorage = [KEY_ROLE \<mapsto> ''Doctor''], origin = ''http://h'',
            pathname = ''/login.html'', href = None\<rparr>)
     = True
   \<and> localStorage (snd (setAuthFromResponse (JObj [(''access_token'', JStr ''t''), (''role_id'', JStr ''5'')])
          \<lparr>localStorage = [KEY_ROLE \<mapsto> ''Doctor''], origin = ''http://h'',
            pathname = ''/login.html'', href = None\<rparr>))
        KEY_ROLE = Some ''Doctor''"
proof -
  let ?kvs = "[(''access_token'', JStr ''t''), (''role_id'', JNum 9)]"
  let ?b = "\<lparr>localStorage = Map.empty, origin = ''http://h'', pathname = ''/login.html'', href = None\<rparr>"
  have p: "payload_of (JObj ?kvs) = JObj ?kvs" by (simp add: payload_of_def guarded_def)
  have t: "map_of ?kvs ''access_token'' = Some (JStr ''t'')" "truthy (JStr ''t'')"
    "stringable (JStr ''t'')"
    by simp_all
  have r: "map_of ?kvs ''role_id'' = None
           \<or> (\<exists>v. map_of ?kvs ''role_id'' = Some v \<and> stringable v)"
    by simp
  have nine: "(9::int) \<notin> {1, 2, 3, 4}" by simp
  have rid: "map_of ?kvs ''role_id'' = Some (JNum 9)" by simp
  have k: "property_key (map_of ?kvs ''role_id'') \<notin> {''1'', ''2'', ''3'', ''4''}"
    "property_key (map_of ?kvs ''role_id'') \<notin> set object_prototype_keys"
    unfolding rid using numeric_role_id_outside [OF nine] by blast+
  note th = setAuthFromResponse_unknown_role [OF p t r k, of ?b]
  have tok: "js_to_string (JStr ''t'') \<noteq> []" by simp
  have norole: "localStorage ?b KEY_ROLE = None" by simp
  have 1: "fst (setAuthFromResponse (JObj ?kvs) ?b) = True"
    using th by (rule conjunct1)
  have 2: "localStorage (snd (setAuthFromResponse (JObj ?kvs) ?b)) KEY_ROLE = None"
    using th [THEN conjunct2, THEN conjunct2, THEN conjunct2, THEN conjunct1] norole
    by (simp only:)
  have 3: "isLoggedIn (snd (setAuthFromResponse (JObj ?kvs) ?b))"
    using th [THEN conjunct2, THEN conjunct2, THEN conjunct2, THEN conjunct2, THEN conjunct1] tok
    by (rule mp)
  have 4: "getRole (snd (setAuthFromResponse (JObj ?kvs) ?b)) = []"
    using th [THEN conjunct2, THEN conjunct2, THEN conjunct2, THEN conjunct2, THEN conjunct2] norole
    by (rule mp)
  let ?kvs5 = "[(''access_token'', JStr ''t''), (''role_id'', JStr ''5'')]"
  let ?d = "\<lparr>localStorage = [KEY_ROLE \<mapsto> ''Doctor''], origin = ''http://h'',
             pathname = ''/login.html'', href = None\<rparr>"
  have p5: "payload_of (JObj ?kvs5) = JObj ?kvs5" by (simp add: payload_of_def guarded_def)
  have t5: "map_of ?kvs5 ''access_token'' = Some (JStr ''t'')" by simp
  have r5: "map_of ?kvs5 ''role_id'' = None
            \<or> (\<exists>v. map_of ?kvs5 ''role_id'' = Some v \<and> stringable v)"
    by simp
  have k5: "property_key (map_of ?kvs5 ''role_id'') \<notin> {''1'', ''2'', ''3'', ''4''}"
    "property_key (map_of ?kvs5 ''role_id'') \<notin> set object_prototype_keys"
    by (simp_all add: property_key_def object_prototype_keys_def)
  note th5 = setAuthFromResponse_unknown_role [OF p5 t5 t(2,3) r5 k5, of ?d]
  have doctor: "localStorage ?d KEY_ROLE = Some ''Doctor''" by simp
  have 5: "fst (setAuthFromResponse (JObj ?kvs5) ?d) = True"
    using th5 by (rule conjunct1)
  have 6: "localStorage (snd (setAuthFromResponse (JObj ?kvs5) ?d)) KEY_ROLE = Some ''Doctor''"
    using th5 [THEN conjunct2, THEN conjunct2, THEN conjunct2, THEN conjunct1] doctor
    by (simp only:)
  show ?thesis using 1 2 3 4 5 6 by (intro conjI)
qed

section \<open>Properties of the paginated table\<close>

lemma render_installs_markup:
  "doc containerId = Some old \<Longrightarrow> render containerId opts doc containerId = Some (table_markup opts)"
  by (simp add: render_def)

lemma render_without_container:
  "doc containerId = None \<Longrightarrow> render containerId opts doc = doc"
  by (simp add: render_def)

text \<open>
  \<open>parseInt\<close> on the string form of a number gives the number back, so that a numeric
  \<open>pageSize\<close> or \<open>currentPage\<close> is read as it is; a missing one is read as \<open>NaN\<close>.
\<close>

lemma digit_val_digit: "d < 10 \<Longrightarrow> digit_val (''0123456789'' ! d) = int d"
proof -
  assume "d < 10"
  then consider "d = 0" | "d = 1" | "d = 2" | "d = 3" | "d = 4"
    | "d = 5" | "d = 6" | "d = 7" | "d = 8" | "d = 9"
    by atomize_elim arith
  then show ?thesis by cases (simp_all add: digit_val_def)
qed

lemma is_digit_digit: "d < 10 \<Longrightarrow> is_digit (''0123456789'' ! d)"
  using digit_chars [of d] by (simp add: is_digit_def)

lemma int_of_digits_snoc: "int_of_digits (xs @ [c]) = 10 * int_of_digits xs + digit_val c"
  by (simp add: int_of_digits_def)

lemma dec_digits_value: "int_of_digits (dec_digits n) = int n \<and> list_all is_digit (dec_digits n)"
proof (induction n rule: dec_digits.induct)
  case (1 n)
  show ?case
  proof (cases "n < 10")
    case True
    then show ?thesis
      by (simp add: dec_digits_small int_of_digits_def digit_val_digit is_digit_digit)
  next
    case False
    have eq: "dec_digits n = dec_digits (n div 10) @ [''0123456789'' ! (n mod 10)]"
      using False by (subst dec_digits.simps) simp
    have m: "n mod 10 < 10" by simp
    have "int_of_digits (dec_digits n) = 10 * int (n div 10) + int (n mod 10)"
      using "1.IH" [OF False] by (simp add: eq int_of_digits_snoc digit_val_digit [OF m])
    also have "\<dots> = int n" by presburger
    finally have v: "int_of_digits (dec_digits n) = int n" .
    have "list_all is_digit (dec_digits n)"
      using "1.IH" [OF False] is_digit_digit [OF m] by (simp add: eq)
    with v show ?thesis by simp
  qed
qed

lemma digit_not_space: "is_digit c \<Longrightarrow> \<not> is_space c"
  by (auto simp: is_digit_def is_space_def)

lemma digit_not_sign: "is_digit c \<Longrightarrow> c \<noteq> CHR ''-'' \<and> c \<noteq> CHR ''+''"
  by (auto simp: is_digit_def)

lemma takeWhile_all: "list_all P xs \<Longrightarrow> takeWhile P xs = xs"
  by (induction xs) simp_all

lemma parse_int_digits:
  assumes "ds \<noteq> []" "list_all is_digit ds"
  shows "parse_int ds = Some (int_of_digits ds)"
    and "parse_int (CHR ''-'' # ds) = Some (- int_of_digits ds)"
proof -
  obtain c cs where ds: "ds = c # cs" using assms(1) by (cases ds) auto
  have c: "is_digit c" using assms(2) ds by simp
  have tw: "takeWhile is_digit ds = ds" using assms(2) by (rule takeWhile_all)
  have dw: "dropWhile is_space ds = ds" using digit_not_space [OF c] by (simp add: ds)
  have sign: "hd ds \<noteq> CHR ''-''" "hd ds \<noteq> CHR ''+''"
    using digit_not_sign [OF c] by (simp_all add: ds)
  show "parse_int ds = Some (int_of_digits ds)"
    unfolding parse_int_def Let_def dw using sign assms(1) by (simp add: tw)
  have ms: "\<not> is_space CHR ''-''" by (simp add: is_space_def)
  have dw': "dropWhile is_space (CHR ''-'' # ds) = CHR ''-'' # ds" using ms by simp
  show "parse_int (CHR ''-'' # ds) = Some (- int_of_digits ds)"
    unfolding parse_int_def Let_def dw' using assms(1) by (simp add: tw)
qed

lemma parseInt_number: "parseInt (Some (JNum n)) = Some n"
proof (cases "n < 0")
  case True
  have "parse_int (CHR ''-'' # dec_digits (nat (- n))) = Some (- int_of_digits (dec_digits (nat (- n))))"
    using dec_digits_nonempty dec_digits_value by (intro parse_int_digits) simp_all
  then show ?thesis using True by (simp add: parseInt_def property_key_def show_int_def dec_digits_value)
next
  case False
  have "parse_int (dec_digits (nat n)) = Some (int_of_digits (dec_digits (nat n)))"
    using dec_digits_nonempty dec_digits_value by (intro parse_int_digits) simp_all
  then show ?thesis using False by (simp add: parseInt_def property_key_def show_int_def dec_digits_value)
qed

lemma parseInt_undefined: "parseInt None = None"
  by (simp add: parseInt_def property_key_def parse_int_def Let_def is_space_def is_digit_def)






lemma requested_pos: "1 \<le> requestedPage_of opts"
  by (simp add: requestedPage_of_def)

lemma totalPages_pos: "1 \<le> totalPages_of opts"
  by (simp add: totalPages_of_def)

lemma currentPage_range: "1 \<le> currentPage_of opts" "currentPage_of opts \<le> totalPages_of opts"
  using requested_pos [of opts] totalPages_pos [of opts] by (simp_all add: currentPage_of_def)









section \<open>Properties of the pager\<close>

lemma page_links_step: "i < j \<Longrightarrow> page_links c i j = PageLink i (i = c) # page_links c (i + 1) j"
  by (simp add: page_links_def upto_rec1)

lemma page_links_single: "page_links c j j = [PageLink j (j = c)]"
  by (simp add: page_links_def)

lemma page_links_head:
  "i \<le> j \<Longrightarrow> \<exists>r. page_links c i j = PageLink i (i = c) # r"
  by (simp add: page_links_def upto_rec1)

lemma gaps_page_links:
  "i \<le> j \<Longrightarrow> gaps_marked (page_links c i j @ rest) = gaps_marked (PageLink j (j = c) # rest)"
proof (induction "nat (j - i)" arbitrary: i)
  case 0
  then have "i = j" by simp
  then show ?case by (simp add: page_links_single)
next
  case (Suc k)
  then have lt: "i < j" and le: "i + 1 \<le> j" and k: "k = nat (j - (i + 1))" by simp_all
  obtain r where r: "page_links c (i + 1) j = PageLink (i + 1) (i + 1 = c) # r"
    using page_links_head [OF le] by blast
  have "gaps_marked (page_links c i j @ rest)
      = gaps_marked (PageLink i (i = c) # page_links c (i + 1) j @ rest)"
    using lt by (simp add: page_links_step)
  also have "\<dots> = gaps_marked (page_links c (i + 1) j @ rest)"
    by (simp add: r)
  also have "\<dots> = gaps_marked (PageLink j (j = c) # rest)"
    using Suc.hyps(1) [OF k le] .
  finally show ?case .
qed

lemma set_page_links: "set (page_links c i j) = {PageLink p (p = c) | p. i \<le> p \<and> p \<le> j}"
  by (auto simp: page_links_def)

lemma pager_items_eq:
  assumes "pager_of opts = Some pg"
  shows "1 < totalPages_of opts"
    and "pager_items pg =
      (if max 1 (currentPage_of opts - 2) > 1 then [PageLink 1 False] else [])
      @ (if max 1 (currentPage_of opts - 2) > 2 then [Ellipsis] else [])
      @ page_links (currentPage_of opts) (max 1 (currentPage_of opts - 2))
          (min (totalPages_of opts) (currentPage_of opts + 2))
      @ (if min (totalPages_of opts) (currentPage_of opts + 2) < totalPages_of opts - 1
         then [Ellipsis] else [])
      @ (if min (totalPages_of opts) (currentPage_of opts + 2) < totalPages_of opts
         then [PageLink (totalPages_of opts) False] else [])"
    and "prev_disabled pg = (currentPage_of opts \<le> 1)"
    and "next_disabled pg = (currentPage_of opts \<ge> totalPages_of opts)"
  using assms by (auto simp: pager_of_def Let_def page_links_def split: if_splits)

lemma gaps_marked_pager:
  assumes c: "1 \<le> c" "c \<le> T"
  shows "gaps_marked
     ((if max 1 (c - 2) > 1 then [PageLink 1 False] else [])
      @ (if max 1 (c - 2) > 2 then [Ellipsis] else [])
      @ page_links c (max 1 (c - 2)) (min T (c + 2))
      @ (if min T (c + 2) < T - 1 then [Ellipsis] else [])
      @ (if min T (c + 2) < T then [PageLink T False] else []))"
proof -
  define f where "f = max 1 (c - 2)"
  define t where "t = min T (c + 2)"
  define tl where "tl = (if t < T - 1 then [Ellipsis] else []) @ (if t < T then [PageLink T False] else [])"
  have ft: "f \<le> t" "1 \<le> f" "t \<le> T" using c by (simp_all add: f_def t_def)
  have last: "gaps_marked (PageLink t (t = c) # tl)"
    using ft by (simp add: tl_def)
  have mid: "gaps_marked (page_links c f t @ tl)"
    using gaps_page_links [OF ft(1), of c tl] last by simp
  obtain r where r: "page_links c f t = PageLink f (f = c) # r"
    using page_links_head [OF ft(1)] by blast
  have m: "gaps_marked (PageLink f (f = c) # r @ tl)" using mid by (simp add: r)
  have "gaps_marked ((if f > 1 then [PageLink 1 False] else []) @ (if f > 2 then [Ellipsis] else [])
          @ (PageLink f (f = c) # r) @ tl)"
    using m ft(2) by (cases "f = 1"; cases "f = 2") auto
  then have "gaps_marked ((if f > 1 then [PageLink 1 False] else []) @ (if f > 2 then [Ellipsis] else [])
          @ page_links c f t @ tl)"
    by (simp only: r)
  then show ?thesis by (simp only: f_def t_def tl_def append_assoc)
qed

lemma shown_pages_simps:
  "shown_pages [] = {}"
  "shown_pages [Ellipsis] = {}"
  "shown_pages [PageLink p a] = {p}"
  "shown_pages (xs @ ys) = shown_pages xs \<union> shown_pages ys"
  "shown_pages (page_links c i j) = {p. i \<le> p \<and> p \<le> j}"
  by (auto simp: shown_pages_def set_page_links)

lemma shown_pages_pager:
  assumes c: "1 \<le> c" "c \<le> T"
  shows "shown_pages
     ((if max 1 (c - 2) > 1 then [PageLink 1 False] else [])
      @ (if max 1 (c - 2) > 2 then [Ellipsis] else [])
      @ page_links c (max 1 (c - 2)) (min T (c + 2))
      @ (if min T (c + 2) < T - 1 then [Ellipsis] else [])
      @ (if min T (c + 2) < T then [PageLink T False] else []))
    = {1, T} \<union> {p. c - 2 \<le> p \<and> p \<le> c + 2 \<and> 1 \<le> p \<and> p \<le> T}"
proof -
  define f where "f = max 1 (c - 2)"
  define t where "t = min T (c + 2)"
  have "shown_pages
     ((if f > 1 then [PageLink 1 False] else [])
      @ (if f > 2 then [Ellipsis] else [])
      @ page_links c f t
      @ (if t < T - 1 then [Ellipsis] else [])
      @ (if t < T then [PageLink T False] else []))
    = (if f > 1 then {1} else {}) \<union> {p. f \<le> p \<and> p \<le> t} \<union> (if t < T then {T} else {})"
    by (simp add: shown_pages_simps)
  also have "\<dots> = {1, T} \<union> {p. c - 2 \<le> p \<and> p \<le> c + 2 \<and> 1 \<le> p \<and> p \<le> T}"
    using c unfolding f_def t_def by auto
  finally show ?thesis by (simp only: f_def t_def)
qed

lemma marks_current_simps:
  "marks_current c []"
  "marks_current c [Ellipsis]"
  "marks_current c [PageLink p a] = (a = (p = c))"
  "marks_current c (xs @ ys) = (marks_current c xs \<and> marks_current c ys)"
  "marks_current c (page_links c i j)"
  by (auto simp: marks_current_def set_page_links)

lemma marks_current_pager:
  assumes c: "1 \<le> c" "c \<le> T"
  shows "marks_current c
     ((if max 1 (c - 2) > 1 then [PageLink 1 False] else [])
      @ (if max 1 (c - 2) > 2 then [Ellipsis] else [])
      @ page_links c (max 1 (c - 2)) (min T (c + 2))
      @ (if min T (c + 2) < T - 1 then [Ellipsis] else [])
      @ (if min T (c + 2) < T then [PageLink T False] else []))"
  using c by (auto simp: marks_current_simps)

lemma pager_absent_iff: "pager_of opts = None \<longleftrightarrow> totalPages_of opts = 1"
  using totalPages_pos [of opts] by (auto simp: pager_of_def Let_def)

text \<open>
  C3: the pager is there when there is more than one page. It then links the first page,
  the last page and the pages within two of the current one, and no other; its gaps are
  marked, an ellipsis standing exactly between two linked pages that are not neighbours;
  the link of the current page, and no other, is the active one; the previous control is
  disabled exactly on page 1 and the next control exactly on the last page.
\<close>

theorem pager_shape:
  assumes pg: "pager_of opts = Some pg"
  shows "1 < totalPages_of opts
       \<and> shown_pages (pager_items pg)
           = {1, totalPages_of opts}
             \<union> {p. currentPage_of opts - 2 \<le> p \<and> p \<le> currentPage_of opts + 2
                     \<and> 1 \<le> p \<and> p \<le> totalPages_of opts}
       \<and> gaps_marked (pager_items pg)
       \<and> (\<forall>p a. PageLink p a \<in> set (pager_items pg) \<longrightarrow> a = (p = currentPage_of opts))
       \<and> prev_disabled pg = (currentPage_of opts = 1)
       \<and> next_disabled pg = (currentPage_of opts = totalPages_of opts)"
proof -
  note c = currentPage_range [of opts]
  note eq = pager_items_eq [OF pg]
  have sh: "shown_pages (pager_items pg)
           = {1, totalPages_of opts}
             \<union> {p. currentPage_of opts - 2 \<le> p \<and> p \<le> currentPage_of opts + 2
                     \<and> 1 \<le> p \<and> p \<le> totalPages_of opts}"
    unfolding eq(2) using c by (rule shown_pages_pager)
  have gm: "gaps_marked (pager_items pg)"
    unfolding eq(2) using c by (rule gaps_marked_pager)
  have ac: "\<forall>p a. PageLink p a \<in> set (pager_items pg) \<longrightarrow> a = (p = currentPage_of opts)"
    using marks_current_pager [OF c] unfolding eq(2) marks_current_def .
  have pd: "prev_disabled pg = (currentPage_of opts = 1)" using eq(3) c by auto
  have nd: "next_disabled pg = (currentPage_of opts = totalPages_of opts)" using eq(4) c by auto
  show ?thesis using eq(1) sh gm ac pd nd by blast
qed

theorem pager_shape_witness:
  "pager_of \<lparr>opt_columns = None, opt_data = Some (replicate 95 []), opt_pageSize = Some (JNum 10),
              opt_currentPage = Some (JNum 5)\<rparr>
     = Some \<lparr>shown_from = 41, shown_to = 50, shown_total = 95, prev_disabled = False, prev_page = 4,
          pager_items = [PageLink 1 False, Ellipsis, PageLink 3 False, PageLink 4 False,
                         PageLink 5 True, PageLink 6 False, PageLink 7 False, Ellipsis,
                         PageLink 10 False],
          next_disabled = False, next_page = 6\<rparr>
   \<and> gaps_marked [PageLink 1 False, Ellipsis, PageLink 3 False, PageLink 4 False,
                    PageLink 5 True, PageLink 6 False, PageLink 7 False, Ellipsis,
                    PageLink 10 False]
   \<and> 1 < totalPages_of \<lparr>opt_columns = None, opt_data = Some (replicate 95 []),
                          opt_pageSize = Some (JNum 10), opt_currentPage = Some (JNum 5)\<rparr>"
proof -
  let ?o = "\<lparr>opt_columns = None, opt_data = Some (replicate 95 []), opt_pageSize = Some (JNum 10),
             opt_currentPage = Some (JNum 5)\<rparr>"
  let ?pg = "\<lparr>shown_from = 41, shown_to = 50, shown_total = 95, prev_disabled = False, prev_page = 4,
          pager_items = [PageLink 1 False, Ellipsis, PageLink 3 False, PageLink 4 False,
                         PageLink 5 True, PageLink 6 False, PageLink 7 False, Ellipsis,
                         PageLink 10 False],
          next_disabled = False, next_page = 6\<rparr>"
  have pg: "pager_of ?o = Some ?pg" by code_simp
  note th = pager_shape [OF pg]
  have t: "1 < totalPages_of ?o" using th by (rule conjunct1)
  have g: "gaps_marked (pager_items ?pg)"
    using th [THEN conjunct2, THEN conjunct2] by (rule conjunct1)
  show ?thesis using pg t g by simp
qed

section \<open>Properties of the register page\<close>

lemma validate_short_mismatch:
  assumes "regPassword pg = ''abc''" "regConfirmPassword pg = ''abcdef''"
  shows "fst (validate pg) = False"
    and "regPassword_invalid (snd (validate pg))"
    and "regPasswordError (snd (validate pg)) = msg_password_min"
    and "regConfirmPassword_invalid (snd (validate pg))"
    and "regConfirmPasswordError (snd (validate pg)) = msg_password_mismatch"
    and "register_calls (snd (validate pg)) = register_calls pg"
    and "page_browser (snd (validate pg)) = page_browser pg"
    and "btn_disabled (snd (validate pg)) = btn_disabled pg"
  using assms
  by (simp_all add: validate_def validate_email_def validate_password_def validate_confirm_def
      validate_role_def Let_def split: prod.splits if_splits)

text \<open>
  C7: submitting the form with the password \<open>abc\<close> and the confirmation \<open>abcdef\<close>,
  whatever the other fields hold, marks the password input invalid with the message
  about six characters and the confirmation input invalid with the message about the
  mismatch, and the handler returns before it calls the network: no payload is handed to
  \<open>AuraAPI.register\<close>, the browser is as before, and the button is not set to loading.
\<close>

theorem submit_short_mismatch_blocks:
  assumes pw: "regPassword pg = ''abc''" and cf: "regConfirmPassword pg = ''abcdef''"
  shows "regPassword_invalid (on_submit api_base fetch pg)
       \<and> regPasswordError (on_submit api_base fetch pg) = msg_password_min
       \<and> regConfirmPassword_invalid (on_submit api_base fetch pg)
       \<and> regConfirmPasswordError (on_submit api_base fetch pg) = msg_password_mismatch
       \<and> register_calls (on_submit api_base fetch pg) = register_calls pg
       \<and> page_browser (on_submit api_base fetch pg) = page_browser pg
       \<and> btn_disabled (on_submit api_base fetch pg) = btn_disabled pg"
proof -
  let ?h = "hideError pg"
  have h: "regPassword ?h = ''abc''" "regConfirmPassword ?h = ''abcdef''"
    using pw cf by (simp_all add: hideError_def)
  have "fst (validate ?h) = False" using h by (rule validate_short_mismatch)
  then have eq: "on_submit api_base fetch pg = snd (validate ?h)"
    by (cases "validate ?h") (auto simp: on_submit_def)
  show ?thesis
    unfolding eq using validate_short_mismatch(2-8) [OF h]
    by (simp add: hideError_def)
qed

theorem submit_short_mismatch_witness:
  "regPassword form_abc = ''abc'' \<and> regConfirmPassword form_abc = ''abcdef''
   \<and> regPassword_invalid (on_submit ''http://localhost:9999'' (\<lambda>url opts. NetworkFailure) form_abc)
   \<and> regConfirmPassword_invalid (on_submit ''http://localhost:9999'' (\<lambda>url opts. NetworkFailure) form_abc)
   \<and> register_calls (on_submit ''http://localhost:9999'' (\<lambda>url opts. NetworkFailure) form_abc) = []"
proof -
  have pw: "regPassword form_abc = ''abc''" by (simp add: form_abc_def)
  have cf: "regConfirmPassword form_abc = ''abcdef''" by (simp add: form_abc_def)
  have calls: "register_calls form_abc = []" by (simp add: form_abc_def)
  note th = submit_short_mismatch_blocks
    [OF pw cf, of "''http://localhost:9999''" "\<lambda>url opts. NetworkFailure"]
  have 1: "regPassword_invalid (on_submit ''http://localhost:9999'' (\<lambda>url opts. NetworkFailure) form_abc)"
    using th by (rule conjunct1)
  have 2: "regConfirmPassword_invalid
             (on_submit ''http://localhost:9999'' (\<lambda>url opts. NetworkFailure) form_abc)"
    using th [THEN conjunct2, THEN conjunct2] by (rule conjunct1)
  have 3: "register_calls (on_submit ''http://localhost:9999'' (\<lambda>url opts. NetworkFailure) form_abc) = []"
    using th [THEN conjunct2, THEN conjunct2, THEN conjunct2, THEN conjunct2, THEN conjunct1] calls
    by simp
  show ?thesis using pw cf 1 2 3 by (intro conjI)
qed

text \<open>
  With a valid form the handler does reach the network: the same form with a password of
  six characters, confirmed, hands one payload to \<open>AuraAPI.register\<close>.
\<close>

lemma submit_valid_form_calls_register:
  "register_calls (on_submit ''http://localhost:9999'' (\<lambda>url opts. NetworkFailure)
      (form_abc\<lparr>regPassword := ''abcdef''\<rparr>))
   = [JObj [(''email'', JStr ''an@example.org''), (''password'', JStr ''abcdef''),
            (''role_id'', JNum 3)]]"
  by code_simp

end
